theory Spec2Isabelle
  imports Complex_Main "HOL-Library.Multiset"
begin

section \<open>Data model of the orientation engine (src/utils/viewFrame.ts)\<close>

text \<open>
  Longitudes and screen angles are JavaScript numbers in the source; they are modelled as
  reals (finite values).  The orb test of \<open>planetCrossesAngle\<close> compares a computed distance with
  a sharp bound, so its two subtractions are modelled with the rounding of IEEE 754 doubles
  (section Double arithmetic); elsewhere the arithmetic is exact.  House numbers are natural
  numbers.  An
  identifier typed \<^verbatim>\<open>number | string\<close> is a tagged value.  An optional field or an
  \<^verbatim>\<open>undefined\<close>/\<^verbatim>\<open>null\<close> result is an \<open>option\<close>.  A JavaScript \<^verbatim>\<open>Map\<close> that the code
  iterates is the list of its entries in insertion order, \<^verbatim>\<open>get\<close> being \<open>map_of\<close>; a
  \<^verbatim>\<open>Map\<close> that is only looked up is a partial function.
\<close>

datatype element_id = NumId int | StrId string

datatype element_type = ObjectElem | HouseElem | SignElem | AngleElem

datatype lock_frame = WorldFrame | ScreenFrame | HousesFrame | SignsFrame

datatype direction = DirCW | DirCCW | DirPos | DirNeg

datatype anchor_target =
    ObjectAnchor element_id
  | HouseAnchor nat
  | SignAnchor nat
  | AngleAnchor string

record view_frame =
  anchor :: anchor_target
  screenAngleDeg :: real
  direction :: direction
  worldZero :: "real option"
  screenZero :: "real option"

record lock_rule =
  lock_type :: element_type
  lock_id :: element_id
  lock_frame :: lock_frame

record chart_data =
  planetLongitudes :: "(element_id \<times> real) list option"
  houseCusps :: "(nat \<times> real) list option"
  angleLongitudes :: "(string \<rightharpoonup> real) option"

record anchor_resolver =
  getObjectLongitude :: "element_id \<Rightarrow> real option"
  getHouseCusp :: "nat \<Rightarrow> real option"
  getSignStart :: "nat \<Rightarrow> real"
  getAngleLongitude :: "string \<Rightarrow> real option"

datatype trigger =
    AscLeavesHouse nat
  | PlanetCrossesHouse element_id nat
  | PlanetCrossesAngle element_id string
  | Custom

datatype effect =
    Rotate real
  | SetViewFrame view_frame
  | Mirror

record orientation_rule =
  rule_id :: string
  rule_trigger :: trigger
  rule_effect :: effect
  rule_locks :: "lock_rule list option"

record orientation_program =
  baseFrame :: view_frame
  program_locks :: "lock_rule list option"
  program_rules :: "orientation_rule list option"

record runtime_state =
  appliedRuleIds :: "string set"
  previousHousePositions :: "(string \<rightharpoonup> nat) option"

record apply_result =
  res_frame :: view_frame
  res_extraLocks :: "lock_rule list"
  res_newState :: runtime_state

record eval_result =
  out_frame :: view_frame
  out_locks :: "lock_rule list"
  out_state :: runtime_state

section \<open>Angle utilities\<close>

text \<open>
  Modelled from the spec: \<^verbatim>\<open>normalizeDeg\<close> is imported from the shared orientation package,
  which is not part of these sources.  The spec gives it as the reduction of any real degree
  value into \<open>[0, 360)\<close> by modulo, negative inputs included.
\<close>

definition normalizeDeg :: "real \<Rightarrow> real" where
  "normalizeDeg x = x - 360 * of_int \<lfloor>x / 360\<rfloor>"

definition normalizeAngle :: "real \<Rightarrow> real" where
  "normalizeAngle = normalizeDeg"

section \<open>Double arithmetic\<close>

text \<open>
  A JavaScript number is an IEEE 754 binary64 value, and \<^verbatim>\<open>a - b\<close> is the exact difference
  rounded to the nearest double, ties to even.  \<open>roundDouble\<close> is that rounding on the reals:
  \<open>binade\<close> finds the exponent \<open>e\<close> with \<open>2^e \<le> |x| < 2^(e+1)\<close> (a search bounded by its first
  argument, which covers the whole exponent range of doubles), the spacing of the doubles there
  is \<open>2^(e - 52)\<close>, with the exponent held at \<open>-1022\<close> in the subnormal range, and the quotient by
  the spacing is rounded to the nearest integer, ties to even.  \<open>jsSubtract\<close> is the
  subtraction; \<open>None\<close> stands for a result that overflows to an infinity.
\<close>

definition roundHalfEven :: "real \<Rightarrow> int" where
  "roundHalfEven q =
     (let f = \<lfloor>q\<rfloor>; r = q - of_int f
      in if r < 1 / 2 then f else if 1 / 2 < r then f + 1 else if even f then f else f + 1)"

fun binade :: "nat \<Rightarrow> real \<Rightarrow> int" where
  "binade fuel x =
     (if fuel = 0 then 0
      else if 2 \<le> x then binade (fuel - 1) (x / 2) + 1
      else if x < 1 then binade (fuel - 1) (2 * x) - 1
      else 0)"

declare binade.simps [simp del]

definition ulpOf :: "real \<Rightarrow> real" where
  "ulpOf x = 2 powi (max (binade 1100 \<bar>x\<bar>) (- 1022) - 52)"

definition roundDouble :: "real \<Rightarrow> real" where
  "roundDouble x = (if x = 0 then 0 else ulpOf x * of_int (roundHalfEven (x / ulpOf x)))"

definition jsSubtract :: "real \<Rightarrow> real \<Rightarrow> real option" where
  "jsSubtract a b =
     (let r = roundDouble (a - b) in if \<bar>r\<bar> < 2 ^ 1024 then Some r else None)"

section \<open>House locator\<close>

text \<open>
  \<^verbatim>\<open>sortedHouses\<close>: the entries with their cusps normalised, sorted by cusp.  The
  comparator \<^verbatim>\<open>a.cusp - b.cusp\<close> under the stable \<^verbatim>\<open>Array.prototype.sort\<close> is the stable
  insertion sort \<open>sort_key\<close>.
\<close>

definition sortedHouses :: "(nat \<times> real) list \<Rightarrow> (nat \<times> real) list" where
  "sortedHouses cusps = sort_key snd (map (\<lambda>(houseNum, cusp). (houseNum, normalizeAngle cusp)) cusps)"

text \<open>The \<^verbatim>\<open>for\<close> loop of \<^verbatim>\<open>getHouseForLongitude\<close>, from index \<open>i\<close> on.\<close>

function houseLoop :: "real \<Rightarrow> (nat \<times> real) list \<Rightarrow> nat \<Rightarrow> nat option" where
  "houseLoop normalizedLon sortedHs i =
     (if i < length sortedHs then
        (let current = sortedHs ! i;
             next = sortedHs ! ((i + 1) mod length sortedHs)
         in if snd next < snd current then
              (if normalizedLon \<ge> snd current \<or> normalizedLon < snd next
               then Some (fst current)
               else houseLoop normalizedLon sortedHs (i + 1))
            else
              (if normalizedLon \<ge> snd current \<and> normalizedLon < snd next
               then Some (fst current)
               else houseLoop normalizedLon sortedHs (i + 1)))
      else None)"
  by pat_completeness auto
termination
  by (relation "measure (\<lambda>(normalizedLon, sortedHs, i). length sortedHs - i)") auto

declare houseLoop.simps [simp del]

definition getHouseForLongitude :: "real \<Rightarrow> (nat \<times> real) list \<Rightarrow> nat option" where
  "getHouseForLongitude longitude cusps =
     (if cusps = [] then None
      else
        (let normalizedLon = normalizeAngle longitude;
             sortedHs = sortedHouses cusps
         in case houseLoop normalizedLon sortedHs 0 of
              Some h \<Rightarrow> Some h
            | None \<Rightarrow> (case sortedHs of [] \<Rightarrow> None | first # _ \<Rightarrow> Some (fst first))))"

text \<open>The cusp set of the spec's example: houses 1..12 at 0, 30, ..., 330 degrees.\<close>

definition evenCusps :: "(nat \<times> real) list" where
  "evenCusps = [(1, 0), (2, 30), (3, 60), (4, 90), (5, 120), (6, 150),
                (7, 180), (8, 210), (9, 240), (10, 270), (11, 300), (12, 330)]"

section \<open>Longitude resolver and view-frame transform\<close>

text \<open>
  The chart snapshot the rule engine reads (\<^verbatim>\<open>ChartSnapshot\<close>) has the three optional maps
  of \<^verbatim>\<open>ChartDataForOrientation\<close>; both are the record \<open>chart_data\<close>.
\<close>

definition createAnchorResolver :: "chart_data \<Rightarrow> anchor_resolver" where
  "createAnchorResolver data =
     \<lparr> getObjectLongitude = (\<lambda>objectId.
         case planetLongitudes data of None \<Rightarrow> None | Some m \<Rightarrow> map_of m objectId),
       getHouseCusp = (\<lambda>houseNumber.
         case houseCusps data of None \<Rightarrow> None | Some m \<Rightarrow> map_of m houseNumber),
       getSignStart = (\<lambda>signNumber. real signNumber * 30),
       getAngleLongitude = (\<lambda>angleType.
         case angleLongitudes data of None \<Rightarrow> None | Some m \<Rightarrow> m angleType) \<rparr>"

text \<open>
  Modelled from the spec: \<^verbatim>\<open>getAnchorLongitude\<close> is imported from the shared orientation
  package, which is not part of these sources.  The spec gives the anchor as a reference to an
  object, a house cusp, a sign start or an angle, resolved by the matching lookup of the
  resolver, with a not-found answer when the snapshot lacks the element.
\<close>

fun getAnchorLongitude :: "anchor_target \<Rightarrow> anchor_resolver \<Rightarrow> real option" where
  "getAnchorLongitude (ObjectAnchor objectId) resolver = getObjectLongitude resolver objectId"
| "getAnchorLongitude (HouseAnchor houseNumber) resolver = getHouseCusp resolver houseNumber"
| "getAnchorLongitude (SignAnchor signNumber) resolver = Some (getSignStart resolver signNumber)"
| "getAnchorLongitude (AngleAnchor angleType) resolver = getAngleLongitude resolver angleType"

text \<open>
  \<^verbatim>\<open>worldToScreenAngle\<close> is imported from the shared package as well; the transform takes it
  as the parameter \<open>worldToScreenAngle\<close>.
\<close>

definition convertToScreenAngle ::
  "(real \<Rightarrow> view_frame \<Rightarrow> real \<Rightarrow> real) \<Rightarrow> real \<Rightarrow> view_frame \<Rightarrow> chart_data \<Rightarrow> real" where
  "convertToScreenAngle worldToScreenAngle worldLongitude viewFrame chartData =
     (let resolver = createAnchorResolver chartData;
          anchorLongitude = getAnchorLongitude (anchor viewFrame) resolver
      in case anchorLongitude of
           None \<Rightarrow>
             (let offset = screenAngleDeg viewFrame - 180
              in normalizeAngle (180 - worldLongitude + offset))
         | Some a \<Rightarrow> worldToScreenAngle worldLongitude viewFrame a)"

section \<open>Lock rule evaluator\<close>

text \<open>
  Modelled from the spec: \<^verbatim>\<open>lockRuleApplies\<close> and the \<^verbatim>\<open>LockRule\<close> type are imported from
  the shared orientation package, which is not part of these sources.  The spec gives a lock
  rule as an element selector (type and id) bound to a lock frame, and the predicate as the
  structural match on type and id.
\<close>

definition lockRuleApplies :: "lock_rule \<Rightarrow> element_type \<Rightarrow> element_id \<Rightarrow> bool" where
  "lockRuleApplies lock elementType elementId =
     (lock_type lock = elementType \<and> lock_id lock = elementId)"

definition shouldLockElement :: "element_type \<Rightarrow> element_id \<Rightarrow> lock_rule list \<Rightarrow> bool" where
  "shouldLockElement elementType elementId locks =
     list_ex (\<lambda>lock. lockRuleApplies lock elementType elementId) locks"

definition getLockFrameForElement ::
  "element_type \<Rightarrow> element_id \<Rightarrow> lock_rule list \<Rightarrow> lock_frame option" where
  "getLockFrameForElement elementType elementId locks =
     (case find (\<lambda>lock. lockRuleApplies lock elementType elementId) locks of
        None \<Rightarrow> None
      | Some applicableLock \<Rightarrow> Some (lock_frame applicableLock))"

definition getEffectiveLongitude ::
  "(real \<Rightarrow> view_frame \<Rightarrow> real \<Rightarrow> real) \<Rightarrow> real \<Rightarrow> element_type \<Rightarrow> element_id
     \<Rightarrow> view_frame \<Rightarrow> chart_data \<Rightarrow> lock_rule list \<Rightarrow> real" where
  "getEffectiveLongitude worldToScreenAngle worldLongitude elementType elementId
       viewFrame chartData locks =
     (case getLockFrameForElement elementType elementId locks of
        None \<Rightarrow> worldLongitude
      | Some lockFrame \<Rightarrow>
          if lockFrame = ScreenFrame then
            (let screenAngle =
                   convertToScreenAngle worldToScreenAngle worldLongitude viewFrame chartData
             in worldLongitude)
          else if lockFrame = WorldFrame then worldLongitude
          else worldLongitude)"

section \<open>Orientation rule engine\<close>

text \<open>
  The keys of \<^verbatim>\<open>previousHousePositions\<close> are the template strings \<^verbatim>\<open>${subject}:${house}\<close>,
  with the subject \<^verbatim>\<open>ASC\<close> or a planet identifier and the house number in decimal, as
  JavaScript prints a number inside a template.
\<close>

definition digitChar :: "nat \<Rightarrow> char" where
  "digitChar d = ''0123456789'' ! d"

fun showNat :: "nat \<Rightarrow> string" where
  "showNat n = (if n < 10 then [digitChar n] else showNat (n div 10) @ [digitChar (n mod 10)])"

declare showNat.simps [simp del]

definition showInt :: "int \<Rightarrow> string" where
  "showInt i = (if i < 0 then ''-'' @ showNat (nat (- i)) else showNat (nat i))"

fun idString :: "element_id \<Rightarrow> string" where
  "idString (NumId n) = showInt n"
| "idString (StrId s) = s"

definition housePositionKey :: "string \<Rightarrow> nat \<Rightarrow> string" where
  "housePositionKey subject house = subject @ '':'' @ showNat house"

text \<open>
  The optional-chaining lookups \<^verbatim>\<open>chart.angleLongitudes?.get(a)\<close>,
  \<^verbatim>\<open>chart.planetLongitudes?.get(p)\<close> and \<^verbatim>\<open>state.previousHousePositions?.get(k)\<close>.
\<close>

definition angleLongitudeOf :: "chart_data \<Rightarrow> string \<Rightarrow> real option" where
  "angleLongitudeOf chart angleType =
     (case angleLongitudes chart of None \<Rightarrow> None | Some m \<Rightarrow> m angleType)"

definition planetLongitudeOf :: "chart_data \<Rightarrow> element_id \<Rightarrow> real option" where
  "planetLongitudeOf chart planet =
     (case planetLongitudes chart of None \<Rightarrow> None | Some m \<Rightarrow> map_of m planet)"

definition previousHouseOf :: "runtime_state \<Rightarrow> string \<Rightarrow> nat option" where
  "previousHouseOf state prevKey =
     (case previousHousePositions state of None \<Rightarrow> None | Some m \<Rightarrow> m prevKey)"

text \<open>
  In the \<open>planetCrossesAngle\<close> branch the two subtractions \<^verbatim>\<open>planetLon - angleLon\<close> and
  \<^verbatim>\<open>360 - diff\<close> round as doubles do.  A difference that overflows to an infinity has no
  remainder modulo 360: its normalisation is NaN, and so are \<^verbatim>\<open>diff\<close> and \<^verbatim>\<open>minDiff\<close>; the
  comparison \<^verbatim>\<open>minDiff <= orb\<close> is then false.
\<close>

definition ruleTriggered :: "orientation_rule \<Rightarrow> chart_data \<Rightarrow> runtime_state \<Rightarrow> bool" where
  "ruleTriggered rule chart state =
     (case rule_trigger rule of
        AscLeavesHouse house \<Rightarrow>
          (case angleLongitudeOf chart ''ASC'' of
             None \<Rightarrow> False
           | Some ascLon \<Rightarrow>
               (case houseCusps chart of
                  None \<Rightarrow> False
                | Some cusps \<Rightarrow>
                    (let currentHouse = getHouseForLongitude ascLon cusps;
                         targetHouse = house;
                         prevHouse = previousHouseOf state (housePositionKey ''ASC'' targetHouse)
                     in if rule_id rule \<in> appliedRuleIds state then False
                        else if currentHouse = Some targetHouse
                                \<and> prevHouse \<noteq> None \<and> prevHouse \<noteq> Some targetHouse then True
                        else if prevHouse = Some targetHouse \<and> currentHouse \<noteq> Some targetHouse
                        then True
                        else False)))
      | PlanetCrossesHouse planet house \<Rightarrow>
          (case planetLongitudeOf chart planet of
             None \<Rightarrow> False
           | Some planetLon \<Rightarrow>
               (case houseCusps chart of
                  None \<Rightarrow> False
                | Some cusps \<Rightarrow>
                    (let currentHouse = getHouseForLongitude planetLon cusps;
                         targetHouse = house;
                         prevHouse =
                           previousHouseOf state (housePositionKey (idString planet) targetHouse)
                     in if currentHouse = Some targetHouse \<and> prevHouse \<noteq> Some targetHouse
                        then True
                        else False)))
      | PlanetCrossesAngle planet angle \<Rightarrow>
          (case planetLongitudeOf chart planet of
             None \<Rightarrow> False
           | Some planetLon \<Rightarrow>
               (case angleLongitudeOf chart angle of
                  None \<Rightarrow> False
                | Some angleLon \<Rightarrow>
                    (case jsSubtract planetLon angleLon of
                       None \<Rightarrow> False
                     | Some difference \<Rightarrow>
                         (let orb = 1;
                              diff = \<bar>normalizeDeg difference\<bar>;
                              minDiff = min diff (roundDouble (360 - diff))
                          in minDiff \<le> orb))))
      | Custom \<Rightarrow> False)"

text \<open>
  \<^verbatim>\<open>applyRule\<close>, in three parts: the tracking of the current house of ASC and of every planet
  (\<open>trackPositions\<close>, with \<open>trackPlanet\<close> the body of its loop over the planet entries), the
  \<^verbatim>\<open>switch\<close> over the effect (\<open>applyEffect\<close>), and the assembly of the result.
\<close>

definition trackPlanet ::
  "(nat \<times> real) list \<Rightarrow> (string \<rightharpoonup> nat) \<Rightarrow> element_id \<times> real \<Rightarrow> (string \<rightharpoonup> nat)" where
  "trackPlanet cusps positions entry =
     (case entry of (planetId, lon) \<Rightarrow>
        (case getHouseForLongitude lon cusps of
           None \<Rightarrow> positions
         | Some house \<Rightarrow> positions(housePositionKey (idString planetId) house \<mapsto> house)))"

definition trackPositions :: "chart_data \<Rightarrow> (string \<rightharpoonup> nat) \<Rightarrow> (string \<rightharpoonup> nat)" where
  "trackPositions chart positions =
     (case houseCusps chart of
        None \<Rightarrow> positions
      | Some cusps \<Rightarrow>
          (let withAsc =
                 (case angleLongitudeOf chart ''ASC'' of
                    None \<Rightarrow> positions
                  | Some ascLon \<Rightarrow>
                      (case getHouseForLongitude ascLon cusps of
                         None \<Rightarrow> positions
                       | Some ascHouse \<Rightarrow>
                           positions(housePositionKey ''ASC'' ascHouse \<mapsto> ascHouse)))
           in case planetLongitudes chart of
                None \<Rightarrow> withAsc
              | Some planets \<Rightarrow> foldl (trackPlanet cusps) withAsc planets))"

definition applyEffect :: "effect \<Rightarrow> view_frame \<Rightarrow> view_frame" where
  "applyEffect eff newFrame =
     (case eff of
        Rotate delta \<Rightarrow>
          (case (worldZero newFrame, screenZero newFrame) of
             (Some wz, Some sz) \<Rightarrow> newFrame\<lparr> screenZero := Some (normalizeDeg (sz + delta)) \<rparr>
           | _ \<Rightarrow> newFrame\<lparr> screenAngleDeg := normalizeDeg (screenAngleDeg newFrame + delta) \<rparr>)
      | SetViewFrame viewFrame \<Rightarrow> viewFrame
      | Mirror \<Rightarrow>
          (case (worldZero newFrame, screenZero newFrame) of
             (Some wz, Some sz) \<Rightarrow>
               newFrame\<lparr> direction := (if direction newFrame = DirNeg then DirPos else DirNeg) \<rparr>
           | _ \<Rightarrow>
               newFrame\<lparr> direction := (if direction newFrame = DirCW then DirCCW else DirCW) \<rparr>))"

definition applyRule ::
  "orientation_rule \<Rightarrow> view_frame \<Rightarrow> lock_rule list \<Rightarrow> chart_data \<Rightarrow> runtime_state
     \<Rightarrow> apply_result" where
  "applyRule rule frame locks chart state =
     (let positions =
            (case previousHousePositions state of None \<Rightarrow> Map.empty | Some m \<Rightarrow> m);
          newState =
            \<lparr> appliedRuleIds = insert (rule_id rule) (appliedRuleIds state),
              previousHousePositions = Some (trackPositions chart positions) \<rparr>;
          newFrame = applyEffect (rule_effect rule) frame;
          extraLocks = (case rule_locks rule of None \<Rightarrow> [] | Some ls \<Rightarrow> ls)
      in \<lparr> res_frame = newFrame, res_extraLocks = extraLocks, res_newState = newState \<rparr>)"

text \<open>
  The loop of \<^verbatim>\<open>evalOrientationProgram\<close> over the rules, carrying the frame, the extra
  locks and the state.
\<close>

fun evalRules ::
  "orientation_rule list \<Rightarrow> lock_rule list \<Rightarrow> chart_data
     \<Rightarrow> view_frame \<times> lock_rule list \<times> runtime_state
     \<Rightarrow> view_frame \<times> lock_rule list \<times> runtime_state" where
  "evalRules [] locks chart acc = acc"
| "evalRules (rule # rest) locks chart (frame, extraLocks, state) =
     (if ruleTriggered rule chart state then
        (let result = applyRule rule frame locks chart state
         in evalRules rest locks chart
              (res_frame result, extraLocks @ res_extraLocks result, res_newState result))
      else evalRules rest locks chart (frame, extraLocks, state))"

definition initialState :: "runtime_state option \<Rightarrow> runtime_state" where
  "initialState previousState =
     (case previousState of
        None \<Rightarrow> \<lparr> appliedRuleIds = {}, previousHousePositions = Some Map.empty \<rparr>
      | Some s \<Rightarrow> s)"

definition rulesOf :: "orientation_program \<Rightarrow> orientation_rule list" where
  "rulesOf program = (case program_rules program of None \<Rightarrow> [] | Some rs \<Rightarrow> rs)"

definition locksOf :: "orientation_program \<Rightarrow> lock_rule list" where
  "locksOf program = (case program_locks program of None \<Rightarrow> [] | Some ls \<Rightarrow> ls)"

definition evalOrientationProgram ::
  "orientation_program \<Rightarrow> chart_data \<Rightarrow> runtime_state option \<Rightarrow> eval_result" where
  "evalOrientationProgram program chart previousState =
     (let locks = locksOf program;
          rules = rulesOf program
      in case evalRules rules locks chart (baseFrame program, [], initialState previousState) of
           (frame, extraLocks, state) \<Rightarrow>
             \<lparr> out_frame = frame, out_locks = locks @ extraLocks, out_state = state \<rparr>)"

text \<open>
  The test \<^verbatim>\<open>ruleTriggered(rule, chart, state)\<close> of the loop at its iteration \<open>i\<close>: the
  rule at index \<open>i\<close> is tested against the state that the iterations before it have left.
\<close>

definition firesAt ::
  "orientation_program \<Rightarrow> chart_data \<Rightarrow> runtime_state option \<Rightarrow> nat \<Rightarrow> bool" where
  "firesAt program chart previousState i =
     (case evalRules (take i (rulesOf program)) (locksOf program) chart
             (baseFrame program, [], initialState previousState) of
        (frame, extraLocks, state) \<Rightarrow> ruleTriggered (rulesOf program ! i) chart state)"

section \<open>The spec's angular distance\<close>


section \<open>Example rules, snapshots and states\<close>

text \<open>
  Mars and ASC at given longitudes without house cusps (\<open>marsChart\<close>), ASC over the twelve
  even cusps (\<open>ascChart\<close>), both with cusps (\<open>bothChart\<close>), ASC with an empty cusp map
  (\<open>noCuspsChart\<close>); a rule per automatic trigger variant; the
  state of a first evaluation (\<open>freshState\<close>), a state that records ASC in house 3
  (\<open>leftState\<close>) and one that records house 4 under the key of house 3 (\<open>enteredState\<close>).
\<close>

definition marsRule :: orientation_rule where
  "marsRule = \<lparr> rule_id = ''mars-asc'',
                rule_trigger = PlanetCrossesAngle (StrId ''mars'') ''ASC'',
                rule_effect = Rotate 30, rule_locks = None \<rparr>"

definition marsChart :: "real \<Rightarrow> real \<Rightarrow> chart_data" where
  "marsChart marsLon ascLon =
     \<lparr> planetLongitudes = Some [(StrId ''mars'', marsLon)],
       houseCusps = None,
       angleLongitudes = Some [''ASC'' \<mapsto> ascLon] \<rparr>"

definition freshState :: runtime_state where
  "freshState = \<lparr> appliedRuleIds = {}, previousHousePositions = Some Map.empty \<rparr>"

definition ascRule :: orientation_rule where
  "ascRule = \<lparr> rule_id = ''asc-leaves-3'', rule_trigger = AscLeavesHouse 3,
               rule_effect = Rotate 30, rule_locks = None \<rparr>"

definition ascChart :: "real \<Rightarrow> chart_data" where
  "ascChart ascLon =
     \<lparr> planetLongitudes = None, houseCusps = Some evenCusps,
       angleLongitudes = Some [''ASC'' \<mapsto> ascLon] \<rparr>"

definition enteredState :: runtime_state where
  "enteredState = \<lparr> appliedRuleIds = {}, previousHousePositions = Some [''ASC:3'' \<mapsto> 4] \<rparr>"

definition legacyFrame :: view_frame where
  "legacyFrame = \<lparr> anchor = AngleAnchor ''ASC'', screenAngleDeg = 180, direction = DirCW,
                   worldZero = None, screenZero = None \<rparr>"

definition leftState :: runtime_state where
  "leftState = \<lparr> appliedRuleIds = {}, previousHousePositions = Some [''ASC:3'' \<mapsto> 3] \<rparr>"

definition crossRule :: orientation_rule where
  "crossRule = \<lparr> rule_id = ''mars-enters-3'',
                 rule_trigger = PlanetCrossesHouse (StrId ''mars'') 3,
                 rule_effect = Mirror, rule_locks = None \<rparr>"

definition noCuspsChart :: chart_data where
  "noCuspsChart = \<lparr> planetLongitudes = None, houseCusps = Some [],
                    angleLongitudes = Some [''ASC'' \<mapsto> 75] \<rparr>"

definition bothChart :: chart_data where
  "bothChart = \<lparr> planetLongitudes = Some [(StrId ''mars'', 75)],
                 houseCusps = Some evenCusps,
                 angleLongitudes = Some [''ASC'' \<mapsto> 105] \<rparr>"

definition edgeProgram :: orientation_program where
  "edgeProgram = \<lparr> baseFrame = legacyFrame, program_locks = None,
                   program_rules = Some [crossRule, ascRule] \<rparr>"

section \<open>Edge-triggered rules and what keeps them from firing again\<close>

text \<open>The edge-triggered variants: \<open>ascLeavesHouse\<close> and \<open>planetCrossesHouse\<close>.\<close>

fun edgeTriggered :: "trigger \<Rightarrow> bool" where
  "edgeTriggered (AscLeavesHouse house) = True"
| "edgeTriggered (PlanetCrossesHouse planet house) = True"
| "edgeTriggered (PlanetCrossesAngle planet angle) = False"
| "edgeTriggered Custom = False"

text \<open>
  What keeps an edge-triggered rule from firing: its id is among the applied ones
  (\<open>ascLeavesHouse\<close>), or the target house is recorded for its planet (\<open>planetCrossesHouse\<close>).
\<close>

definition settled :: "orientation_rule \<Rightarrow> runtime_state \<Rightarrow> bool" where
  "settled rule state =
     (case rule_trigger rule of
        AscLeavesHouse house \<Rightarrow> rule_id rule \<in> appliedRuleIds state
      | PlanetCrossesHouse planet house \<Rightarrow>
          previousHouseOf state (housePositionKey (idString planet) house) = Some house
      | PlanetCrossesAngle planet angle \<Rightarrow> False
      | Custom \<Rightarrow> False)"

section \<open>Properties of the angle utilities\<close>

lemma normalizeDeg_lower: "0 \<le> normalizeDeg x"
proof -
  have "of_int \<lfloor>x / 360\<rfloor> \<le> x / 360" by (rule of_int_floor_le)
  then have "360 * of_int \<lfloor>x / 360\<rfloor> \<le> x" by simp
  then show ?thesis by (simp add: normalizeDeg_def)
qed

lemma normalizeDeg_upper: "normalizeDeg x < 360"
proof -
  have "x / 360 < of_int \<lfloor>x / 360\<rfloor> + 1" by linarith
  then have "x < 360 * (of_int \<lfloor>x / 360\<rfloor> + 1)" by (simp add: field_simps)
  then show ?thesis by (simp add: normalizeDeg_def algebra_simps)
qed

lemma normalizeDeg_id: "0 \<le> x \<Longrightarrow> x < 360 \<Longrightarrow> normalizeDeg x = x"
proof -
  assume a: "0 \<le> x" "x < 360"
  then have "\<lfloor>x / 360\<rfloor> = 0" by (simp add: floor_eq_iff)
  then show ?thesis by (simp add: normalizeDeg_def)
qed

section \<open>Properties of the house locator\<close>

lemma sortedHouses_evenCusps: "sortedHouses evenCusps = evenCusps"
  by (simp add: sortedHouses_def evenCusps_def normalizeAngle_def normalizeDeg_def)

lemma houseLoop_in_list:
  "houseLoop lon sortedHs i = Some h \<Longrightarrow> h \<in> fst ` set sortedHs"
proof (induction lon sortedHs i rule: houseLoop.induct)
  case (1 normalizedLon sortedHs i)
  show ?case
  proof (cases "i < length sortedHs")
    case False
    with "1.prems" show ?thesis by (simp add: houseLoop.simps [of normalizedLon sortedHs i])
  next
    case True
    then have mem: "fst (sortedHs ! i) \<in> fst ` set sortedHs" by simp
    from "1.prems" True "1.IH" mem show ?thesis
      by (auto simp: houseLoop.simps [of normalizedLon sortedHs i] Let_def split: if_splits)
  qed
qed

lemma sortedHouses_fst: "fst ` set (sortedHouses cusps) = fst ` set cusps"
  by (force simp: sortedHouses_def)

lemma sortedHouses_Nil: "(sortedHouses cusps = []) = (cusps = [])"
proof -
  have "length (sortedHouses cusps) = length cusps" by (simp add: sortedHouses_def)
  then show ?thesis by (metis length_0_conv)
qed

lemma filter_same_key_distinct:
  "distinct (map f xs) \<Longrightarrow> k \<in> set xs \<Longrightarrow> filter (\<lambda>x. f k = f x) xs = [k]"
proof (induction xs)
  case Nil
  then show ?case by simp
next
  case (Cons a xs)
  show ?case
  proof (cases "k = a")
    case True
    from Cons.prems(1) have "\<forall>x \<in> set xs. f a \<noteq> f x" by auto
    then have "filter (\<lambda>x. f a = f x) xs = []" by (simp add: filter_empty_conv)
    with True show ?thesis by simp
  next
    case False
    with Cons.prems(2) have k: "k \<in> set xs" by simp
    from Cons.prems(1) have "f a \<notin> f ` set xs" by simp
    with k have "f k \<noteq> f a" by (metis imageI)
    with k Cons.IH Cons.prems(1) show ?thesis by simp
  qed
qed

lemma normalise_evenCusps:
  "map (\<lambda>(houseNum, cusp). (houseNum, normalizeAngle cusp)) evenCusps = evenCusps"
  by (simp add: evenCusps_def normalizeAngle_def normalizeDeg_def)

lemma sortedHouses_even_entries:
  assumes "mset cusps = mset evenCusps"
  shows "sortedHouses cusps = evenCusps"
proof -
  let ?g = "\<lambda>(houseNum, cusp). (houseNum :: nat, normalizeAngle cusp)"
  let ?xs = "map ?g cusps"
  have "mset ?xs = image_mset ?g (mset evenCusps)" using assms by simp
  also have "\<dots> = mset (map ?g evenCusps)" by simp
  finally have m: "mset evenCusps = mset ?xs" by (simp only: normalise_evenCusps)
  have de: "distinct (map snd evenCusps)" by (simp add: evenCusps_def)
  from m have "mset (map snd evenCusps) = mset (map snd ?xs)" by (metis mset_map)
  with de have dx: "distinct (map snd ?xs)" by (metis mset_eq_imp_distinct_iff)
  have f: "filter (\<lambda>x. snd k = snd x) evenCusps = filter (\<lambda>x. snd k = snd x) ?xs"
    if "k \<in> set evenCusps" for k
  proof -
    from that m have "k \<in> set ?xs" by (metis mset_eq_setD)
    with dx have "filter (\<lambda>x. snd k = snd x) ?xs = [k]" by (rule filter_same_key_distinct)
    moreover from de that have "filter (\<lambda>x. snd k = snd x) evenCusps = [k]"
      by (rule filter_same_key_distinct)
    ultimately show ?thesis by simp
  qed
  have s: "sorted (map snd evenCusps)" by (simp add: evenCusps_def)
  from m f s have "sort_key snd ?xs = evenCusps" by (rule properties_for_sort_key)
  then show ?thesis by (simp add: sortedHouses_def)
qed

text \<open>
  C6.  For the cusp set that maps the houses 1..12 to the twelve evenly spaced longitudes
  0, 30, ..., 330, whatever the order in which its entries were inserted, the house locator
  answers house 1 for longitude 15, house 12 for longitude 359 and house 1 for longitude 0.
\<close>

theorem houseOf_even_cusps:
  assumes "mset cusps = mset evenCusps"
  shows "getHouseForLongitude 15 cusps = Some 1
   \<and> getHouseForLongitude 359 cusps = Some 12
   \<and> getHouseForLongitude 0 cusps = Some 1"
proof -
  have n15: "normalizeAngle 15 = 15" and n359: "normalizeAngle 359 = 359"
    and n0: "normalizeAngle 0 = 0"
    by (simp_all add: normalizeAngle_def normalizeDeg_def)
  from assms have "length cusps = length evenCusps" by (rule mset_eq_length)
  then have ne: "cusps \<noteq> []" by (auto simp: evenCusps_def)
  have a: "houseLoop 15 evenCusps 0 = Some 1"
    by (simp add: houseLoop.simps evenCusps_def)
  have b: "houseLoop 359 evenCusps 0 = Some 12"
    by (simp add: houseLoop.simps evenCusps_def)
  have c: "houseLoop 0 evenCusps 0 = Some 1"
    by (simp add: houseLoop.simps evenCusps_def)
  show ?thesis
    by (simp add: getHouseForLongitude_def ne sortedHouses_even_entries [OF assms] n15 n359 n0 a b c)
qed

text \<open>The same cusp set with its entries inserted from house 12 down to house 1.\<close>

theorem houseOf_even_cusps_witness:
  "mset (rev evenCusps) = mset evenCusps
   \<and> rev evenCusps \<noteq> evenCusps
   \<and> getHouseForLongitude 15 (rev evenCusps) = Some 1
   \<and> getHouseForLongitude 359 (rev evenCusps) = Some 12
   \<and> getHouseForLongitude 0 (rev evenCusps) = Some 1"
proof -
  have m: "mset (rev evenCusps) = mset evenCusps" by simp
  have r: "rev evenCusps \<noteq> evenCusps" by (simp add: evenCusps_def)
  from houseOf_even_cusps [OF m] m r show ?thesis by blast
qed

text \<open>
  C7.  For every longitude and every cusp map, well formed or not, the house locator answers
  not-found exactly when the cusp map is empty, and for a non-empty cusp map it answers a house
  number that is a key of the map.  The locator is a total function: its loop runs over the
  indices of the sortedHs entries once, so it always returns.
\<close>

theorem houseOf_notfound_iff_empty:
  "(getHouseForLongitude longitude cusps = None) = (cusps = [])
   \<and> (cusps \<noteq> [] \<longrightarrow>
        (\<exists>h. getHouseForLongitude longitude cusps = Some h \<and> h \<in> fst ` set cusps))"
proof (cases "cusps = []")
  case True
  then show ?thesis by (simp add: getHouseForLongitude_def)
next
  case False
  then obtain first rest where s: "sortedHouses cusps = first # rest"
    by (metis sortedHouses_Nil list.exhaust)
  show ?thesis
  proof (cases "houseLoop (normalizeAngle longitude) (sortedHouses cusps) 0")
    case None
    have "fst first \<in> fst ` set (sortedHouses cusps)" by (simp add: s)
    then have "fst first \<in> fst ` set cusps" by (simp add: sortedHouses_fst)
    with False None s show ?thesis by (simp add: getHouseForLongitude_def)
  next
    case (Some h)
    then have "h \<in> fst ` set (sortedHouses cusps)" by (rule houseLoop_in_list)
    then have "h \<in> fst ` set cusps" by (simp add: sortedHouses_fst)
    with False Some show ?thesis by (simp add: getHouseForLongitude_def)
  qed
qed

text \<open>
  Overlapping cusps (two houses on the same cusp): no interval of the loop contains the
  longitude, and the locator falls back to the first house of the sorted entries.
\<close>

theorem houseOf_notfound_iff_empty_witness:
  "[(3, 10), (4, 10)] \<noteq> ([] :: (nat \<times> real) list)
   \<and> getHouseForLongitude 5 [(3, 10), (4, 10)] = Some 3
   \<and> (3::nat) \<in> fst ` set [(3, 10 :: real), (4, 10)]"
proof -
  have n: "normalizeDeg 5 = 5" "normalizeDeg 10 = 10"
    by (simp_all add: normalizeDeg_def)
  have s: "sortedHouses [(3, 10), (4, 10)] = [(3, 10), (4, 10)]"
    by (simp add: sortedHouses_def normalizeAngle_def n)
  have l: "houseLoop 5 [(3, 10), (4, 10)] 0 = None"
    by (simp add: houseLoop.simps)
  have "getHouseForLongitude 5 [(3, 10), (4, 10)] = Some 3"
    by (simp add: getHouseForLongitude_def Let_def s l normalizeAngle_def n)
  with houseOf_notfound_iff_empty [of 5 "[(3, 10), (4, 10)]"] show ?thesis by simp
qed

section \<open>Properties of the transform and of the lock evaluator\<close>

text \<open>
  C3.  When the anchor of the view frame cannot be resolved from the chart data (the anchor
  lookup answers not-found), the screen angle of a world longitude \<open>W\<close> is exactly
  \<open>normalize (180 - W + (screenAngleDeg - 180))\<close>, and it lies in \<open>[0, 360)\<close>.  The conversion
  is a total function with no failing branch.
\<close>

theorem convertToScreenAngle_fallback:
  assumes "getAnchorLongitude (anchor viewFrame) (createAnchorResolver chartData) = None"
  shows "convertToScreenAngle w2s W viewFrame chartData
           = normalizeAngle (180 - W + (screenAngleDeg viewFrame - 180))
         \<and> 0 \<le> convertToScreenAngle w2s W viewFrame chartData
         \<and> convertToScreenAngle w2s W viewFrame chartData < 360"
  using assms
  by (simp add: convertToScreenAngle_def Let_def normalizeAngle_def
      normalizeDeg_lower normalizeDeg_upper)

theorem convertToScreenAngle_fallback_witness:
  "getAnchorLongitude
      (anchor \<lparr> anchor = AngleAnchor ''ASC'', screenAngleDeg = 180, direction = DirCW,
                worldZero = None, screenZero = None \<rparr>)
      (createAnchorResolver
         \<lparr> planetLongitudes = None, houseCusps = None, angleLongitudes = None \<rparr>) = None
   \<and> convertToScreenAngle (\<lambda>w f a. 0) 370
        \<lparr> anchor = AngleAnchor ''ASC'', screenAngleDeg = 180, direction = DirCW,
          worldZero = None, screenZero = None \<rparr>
        \<lparr> planetLongitudes = None, houseCusps = None, angleLongitudes = None \<rparr> = 170"
proof -
  have h: "getAnchorLongitude
      (anchor \<lparr> anchor = AngleAnchor ''ASC'', screenAngleDeg = 180, direction = DirCW,
                worldZero = None, screenZero = None \<rparr>)
      (createAnchorResolver
         \<lparr> planetLongitudes = None, houseCusps = None, angleLongitudes = None \<rparr>) = None"
    by (simp add: createAnchorResolver_def)
  have n: "normalizeAngle (180 - 370 + (180 - 180)) = 170"
    by (simp add: normalizeAngle_def normalizeDeg_def)
  from convertToScreenAngle_fallback [OF h, of "\<lambda>w f a. 0" 370] h n show ?thesis
    by simp
qed

text \<open>
  C8.  The lock-frame lookup answers the frame of the first rule, in list order, that matches
  the element, and nothing when no rule matches: if no rule of the list matches the answer is
  \<open>None\<close>, and if the rule at index \<open>k\<close> matches and no rule before it does, the answer is the
  frame of that rule, whatever rules follow it.
\<close>

theorem getLockFrameForElement_first_match:
  "((\<forall>lock \<in> set locks. \<not> lockRuleApplies lock elementType elementId)
      \<longrightarrow> getLockFrameForElement elementType elementId locks = None)
   \<and> (k < length locks
        \<and> lockRuleApplies (locks ! k) elementType elementId
        \<and> (\<forall>j < k. \<not> lockRuleApplies (locks ! j) elementType elementId)
      \<longrightarrow> getLockFrameForElement elementType elementId locks = Some (lock_frame (locks ! k)))"
proof (intro conjI impI)
  assume "\<forall>lock \<in> set locks. \<not> lockRuleApplies lock elementType elementId"
  then have "find (\<lambda>lock. lockRuleApplies lock elementType elementId) locks = None"
    by (simp add: find_None_iff)
  then show "getLockFrameForElement elementType elementId locks = None"
    by (simp add: getLockFrameForElement_def)
next
  assume m: "k < length locks
            \<and> lockRuleApplies (locks ! k) elementType elementId
            \<and> (\<forall>j < k. \<not> lockRuleApplies (locks ! j) elementType elementId)"
  then have "find (\<lambda>lock. lockRuleApplies lock elementType elementId) locks = Some (locks ! k)"
    unfolding find_Some_iff by blast
  then show "getLockFrameForElement elementType elementId locks = Some (lock_frame (locks ! k))"
    by (simp add: getLockFrameForElement_def)
qed

text \<open>
  Two rules that both match the sun, with different frames: the first rule's frame is the
  answer and the second rule is shadowed.  No rule matches the moon.
\<close>

theorem getLockFrameForElement_first_match_witness:
  "lockRuleApplies \<lparr> lock_type = ObjectElem, lock_id = StrId ''sun'', lock_frame = ScreenFrame \<rparr>
      ObjectElem (StrId ''sun'')
   \<and> lockRuleApplies \<lparr> lock_type = ObjectElem, lock_id = StrId ''sun'', lock_frame = WorldFrame \<rparr>
      ObjectElem (StrId ''sun'')
   \<and> getLockFrameForElement ObjectElem (StrId ''sun'')
        [\<lparr> lock_type = ObjectElem, lock_id = StrId ''sun'', lock_frame = ScreenFrame \<rparr>,
         \<lparr> lock_type = ObjectElem, lock_id = StrId ''sun'', lock_frame = WorldFrame \<rparr>]
       = Some ScreenFrame
   \<and> getLockFrameForElement ObjectElem (StrId ''moon'')
        [\<lparr> lock_type = ObjectElem, lock_id = StrId ''sun'', lock_frame = ScreenFrame \<rparr>,
         \<lparr> lock_type = ObjectElem, lock_id = StrId ''sun'', lock_frame = WorldFrame \<rparr>]
       = None"
  using getLockFrameForElement_first_match [of
      "[\<lparr> lock_type = ObjectElem, lock_id = StrId ''sun'', lock_frame = ScreenFrame \<rparr>,
        \<lparr> lock_type = ObjectElem, lock_id = StrId ''sun'', lock_frame = WorldFrame \<rparr>]"
      ObjectElem "StrId ''sun''" 0]
    getLockFrameForElement_first_match [of
      "[\<lparr> lock_type = ObjectElem, lock_id = StrId ''sun'', lock_frame = ScreenFrame \<rparr>,
        \<lparr> lock_type = ObjectElem, lock_id = StrId ''sun'', lock_frame = WorldFrame \<rparr>]"
      ObjectElem "StrId ''moon''" 0]
  by (simp add: lockRuleApplies_def)

text \<open>
  C10.  The effective longitude of an element is its world longitude, whatever the lock rules
  say: the unlocked case and each of the lock frames (screen, world, houses, signs) return
  the world longitude unchanged.
\<close>

theorem getEffectiveLongitude_is_world:
  "getEffectiveLongitude w2s worldLongitude elementType elementId viewFrame chartData locks
     = worldLongitude"
  by (simp add: getEffectiveLongitude_def Let_def split: option.split)

section \<open>Properties of the triggers\<close>




subsection \<open>Rounding to a double\<close>



























lemma housePositionKey_ASC_3: "housePositionKey ''ASC'' 3 = ''ASC:3''"
  by (simp add: housePositionKey_def showNat.simps digitChar_def)

lemma evenCusps_75: "getHouseForLongitude 75 evenCusps = Some 3"
proof -
  have n: "normalizeAngle 75 = 75" by (simp add: normalizeAngle_def normalizeDeg_def)
  have ne: "evenCusps \<noteq> []" by (simp add: evenCusps_def)
  have a: "houseLoop 75 evenCusps 0 = Some 3"
    by (simp add: houseLoop.simps evenCusps_def)
  show ?thesis by (simp add: getHouseForLongitude_def ne sortedHouses_evenCusps n a)
qed

lemma ascLeavesHouse_iff:
  assumes "rule_trigger rule = AscLeavesHouse house"
    and "angleLongitudeOf chart ''ASC'' = Some ascLon"
    and "houseCusps chart = Some cusps"
    and "rule_id rule \<notin> appliedRuleIds state"
  shows "ruleTriggered rule chart state =
           (let currentHouse = getHouseForLongitude ascLon cusps;
                prevHouse = previousHouseOf state (housePositionKey ''ASC'' house)
            in (currentHouse \<noteq> Some house \<and> prevHouse = Some house)
               \<or> (currentHouse = Some house \<and> prevHouse \<noteq> None \<and> prevHouse \<noteq> Some house))"
  using assms by (auto simp: ruleTriggered_def Let_def)

text \<open>
  C1.  The claim: a rule with the trigger \<open>ascLeavesHouse\<close> that has not been applied yet fires
  exactly when the house of ASC differs from the configured house and the house recorded under
  the key \<^verbatim>\<open>ASC:{house}\<close> is the configured house; in particular it does not fire while ASC is in
  the configured house.  The code has a second path (\<open>ascLeavesHouse_iff\<close>): it also fires while
  ASC is in the configured house, when the recorded house is another one.  Here ASC is at 75
  degrees, in house 3, the configured house; house 4 is recorded under \<^verbatim>\<open>ASC:3\<close>; the rule has
  not been applied; and the trigger fires.
\<close>

theorem ascLeavesHouse_fires_inside_house:
  "rule_trigger ascRule = AscLeavesHouse 3
   \<and> rule_id ascRule \<notin> appliedRuleIds enteredState
   \<and> angleLongitudeOf (ascChart 75) ''ASC'' = Some 75
   \<and> houseCusps (ascChart 75) = Some evenCusps
   \<and> getHouseForLongitude 75 evenCusps = Some 3
   \<and> previousHouseOf enteredState ''ASC:3'' = Some 4
   \<and> ruleTriggered ascRule (ascChart 75) enteredState"
  by (simp add: ruleTriggered_def ascRule_def ascChart_def enteredState_def
      angleLongitudeOf_def previousHouseOf_def housePositionKey_ASC_3 evenCusps_75)

text \<open>
  C5 (as amended).  For a rule with the effect \<open>rotate{delta}\<close>: if the frame has both
  \<open>worldZero\<close> and \<open>screenZero\<close> set, the resulting frame's \<open>screenZero\<close> is
  \<open>normalize (screenZero + delta)\<close>; if either is missing, the resulting frame's
  \<open>screenAngleDeg\<close> is \<open>normalize (screenAngleDeg + delta)\<close>; in both cases the updated
  zero-point lies in \<open>[0, 360)\<close>.
\<close>

theorem rotate_zero_point:
  assumes "rule_effect rule = Rotate delta"
  shows "(worldZero F \<noteq> None \<and> screenZero F = Some sz \<longrightarrow>
            screenZero (res_frame (applyRule rule F locks chart state))
              = Some (normalizeDeg (sz + delta))
            \<and> 0 \<le> normalizeDeg (sz + delta) \<and> normalizeDeg (sz + delta) < 360)
         \<and> (worldZero F = None \<or> screenZero F = None \<longrightarrow>
            screenAngleDeg (res_frame (applyRule rule F locks chart state))
              = normalizeDeg (screenAngleDeg F + delta)
            \<and> 0 \<le> normalizeDeg (screenAngleDeg F + delta)
            \<and> normalizeDeg (screenAngleDeg F + delta) < 360)"
  using assms
  by (auto simp: applyRule_def applyEffect_def Let_def normalizeDeg_lower normalizeDeg_upper
      split: option.splits)

theorem rotate_zero_point_witness:
  "rule_effect marsRule = Rotate 30
   \<and> screenZero (res_frame (applyRule marsRule
        (legacyFrame\<lparr> worldZero := Some 0, screenZero := Some 350 \<rparr>) [] (marsChart 10 10) freshState))
       = Some 20
   \<and> screenAngleDeg (res_frame (applyRule marsRule legacyFrame [] (marsChart 10 10) freshState))
       = 210"
proof -
  have e: "rule_effect marsRule = Rotate 30" by (simp add: marsRule_def)
  have n1: "normalizeDeg (350 + 30) = 20" by (simp add: normalizeDeg_def)
  have n2: "normalizeDeg (180 + 30) = 210" by (simp add: normalizeDeg_def)
  have f1: "worldZero (legacyFrame\<lparr> worldZero := Some 0, screenZero := Some 350 \<rparr>) \<noteq> None
            \<and> screenZero (legacyFrame\<lparr> worldZero := Some 0, screenZero := Some 350 \<rparr>) = Some 350"
    by simp
  have f2: "worldZero legacyFrame = None \<or> screenZero legacyFrame = None"
    by (simp add: legacyFrame_def)
  have s: "screenAngleDeg legacyFrame = 180" by (simp add: legacyFrame_def)
  from rotate_zero_point [OF e, of "legacyFrame\<lparr> worldZero := Some 0, screenZero := Some 350 \<rparr>"
      350 "[]" "marsChart 10 10" freshState] f1 n1
  have a: "screenZero (res_frame (applyRule marsRule
        (legacyFrame\<lparr> worldZero := Some 0, screenZero := Some 350 \<rparr>) [] (marsChart 10 10) freshState))
       = Some 20" by simp
  from rotate_zero_point [OF e, of legacyFrame 0 "[]" "marsChart 10 10" freshState] f2 n2 s
  have b: "screenAngleDeg (res_frame (applyRule marsRule legacyFrame [] (marsChart 10 10) freshState))
       = 210" by simp
  from e a b show ?thesis by blast
qed

text \<open>
  The claim as first stated selects the new model by \<open>screenZero\<close> alone.  A frame with
  \<open>screenZero\<close> set and \<open>worldZero\<close> missing is rotated in the legacy model: its
  \<open>screenZero\<close> stays at 10 instead of moving to \<open>normalize (10 + 30)\<close>.
\<close>

theorem rotate_screenZero_counterexample:
  "rule_effect marsRule = Rotate 30
   \<and> screenZero (legacyFrame\<lparr> screenZero := Some 10 \<rparr>) = Some 10
   \<and> screenZero (res_frame (applyRule marsRule (legacyFrame\<lparr> screenZero := Some 10 \<rparr>) []
         (marsChart 10 10) freshState))
       \<noteq> Some (normalizeDeg (10 + 30))"
proof -
  have n: "normalizeDeg 40 = 40" by (simp add: normalizeDeg_def)
  show ?thesis
    by (simp add: n applyRule_def applyEffect_def Let_def marsRule_def legacyFrame_def)
qed

text \<open>
  What holds of missing data: when the longitude a trigger needs is not in the snapshot, or
  the snapshot has no cusp map at all, the trigger does not fire; a custom trigger never
  fires.
\<close>

lemma absent_data_never_fires:
  "(rule_trigger rule = AscLeavesHouse house
      \<and> (angleLongitudeOf chart ''ASC'' = None \<or> houseCusps chart = None)
      \<longrightarrow> \<not> ruleTriggered rule chart state)
   \<and> (rule_trigger rule = PlanetCrossesHouse planet house
      \<and> (planetLongitudeOf chart planet = None \<or> houseCusps chart = None)
      \<longrightarrow> \<not> ruleTriggered rule chart state)
   \<and> (rule_trigger rule = PlanetCrossesAngle planet angle
      \<and> (planetLongitudeOf chart planet = None \<or> angleLongitudeOf chart angle = None)
      \<longrightarrow> \<not> ruleTriggered rule chart state)
   \<and> (rule_trigger rule = Custom \<longrightarrow> \<not> ruleTriggered rule chart state)"
  by (auto simp: ruleTriggered_def split: option.splits)


text \<open>
  C9.  The claim: a trigger does not fire when the snapshot lacks the data it needs, house
  cusps included.  A snapshot whose cusp map is present but empty passes the guard of
  \<open>ascLeavesHouse\<close>; the house of ASC is then not found, which the trigger takes for a house
  other than the configured one.  Here the cusp map is empty, house 3 is recorded under
  \<^verbatim>\<open>ASC:3\<close>, and the trigger \<open>ascLeavesHouse{3}\<close> fires.
\<close>

theorem ascLeavesHouse_fires_without_cusps:
  "rule_trigger ascRule = AscLeavesHouse 3
   \<and> rule_id ascRule \<notin> appliedRuleIds leftState
   \<and> angleLongitudeOf noCuspsChart ''ASC'' = Some 75
   \<and> houseCusps noCuspsChart = Some []
   \<and> getHouseForLongitude 75 [] = None
   \<and> previousHouseOf leftState ''ASC:3'' = Some 3
   \<and> ruleTriggered ascRule noCuspsChart leftState"
  by (simp add: ruleTriggered_def ascRule_def noCuspsChart_def leftState_def
      angleLongitudeOf_def previousHouseOf_def housePositionKey_ASC_3 getHouseForLongitude_def)

section \<open>Repeated evaluation\<close>

lemma digitChar_inj: "d < 10 \<Longrightarrow> e < 10 \<Longrightarrow> digitChar d = digitChar e \<Longrightarrow> d = e"
proof -
  assume "d < 10" "e < 10" and eq: "digitChar d = digitChar e"
  then have "d \<in> {0,1,2,3,4,5,6,7,8,9}" "e \<in> {0,1,2,3,4,5,6,7,8,9}" by auto
  with eq show ?thesis by (auto simp: digitChar_def)
qed

lemma digitChar_no_colon: "d < 10 \<Longrightarrow> digitChar d \<noteq> CHR '':''"
proof -
  assume "d < 10"
  then have "d \<in> {0,1,2,3,4,5,6,7,8,9}" by auto
  then show ?thesis by (auto simp: digitChar_def)
qed

lemma showNat_no_colon: "CHR '':'' \<notin> set (showNat n)"
proof (induction n rule: showNat.induct)
  case (1 n)
  show ?case
  proof (cases "n < 10")
    case True
    then show ?thesis
      by (simp add: showNat.simps [of n] digitChar_no_colon digitChar_no_colon [THEN not_sym])
  next
    case False
    have "n mod 10 < 10" by simp
    with False "1.IH" show ?thesis
      by (simp add: showNat.simps [of n] digitChar_no_colon digitChar_no_colon [THEN not_sym])
  qed
qed

lemma showNat_nonempty: "showNat n \<noteq> []"
  by (simp add: showNat.simps [of n])

lemma showNat_inj: "showNat a = showNat b \<Longrightarrow> a = b"
proof (induction a arbitrary: b rule: showNat.induct)
  case (1 a)
  show ?case
  proof (cases "a < 10")
    case True
    show ?thesis
    proof (cases "b < 10")
      case bs: True
      from "1.prems" True bs have "digitChar a = digitChar b"
        by (simp add: showNat.simps [of a] showNat.simps [of b])
      with True bs show ?thesis by (rule digitChar_inj)
    next
      case False
      with "1.prems" True show ?thesis
        by (simp add: showNat.simps [of a] showNat.simps [of b] showNat_nonempty
            showNat_nonempty [THEN not_sym])
    qed
  next
    case False
    show ?thesis
    proof (cases "b < 10")
      case True
      with "1.prems" False show ?thesis
        by (simp add: showNat.simps [of a] showNat.simps [of b] showNat_nonempty
            showNat_nonempty [THEN not_sym])
    next
      case bl: False
      from "1.prems" False bl
      have eq: "showNat (a div 10) = showNat (b div 10)"
        and dg: "digitChar (a mod 10) = digitChar (b mod 10)"
        by (simp_all add: showNat.simps [of a] showNat.simps [of b])
      from "1.IH" [OF False eq] have d: "a div 10 = b div 10" .
      have "a mod 10 < 10" "b mod 10 < 10" by simp_all
      then have m: "a mod 10 = b mod 10" using dg by (rule digitChar_inj)
      from d m show ?thesis by (metis div_mult_mod_eq)
    qed
  qed
qed

lemma colon_suffix_eq:
  assumes "CHR '':'' \<notin> set u" "CHR '':'' \<notin> set v" "s @ CHR '':'' # u = t @ CHR '':'' # v"
  shows "u = v"
proof -
  have "rev u @ CHR '':'' # rev s = rev v @ CHR '':'' # rev t"
    using assms(3) by (metis rev.simps(2) rev_append rev_rev_ident append.assoc append_Cons append_Nil)
  then have "takeWhile (\<lambda>c. c \<noteq> CHR '':'') (rev u @ CHR '':'' # rev s)
      = takeWhile (\<lambda>c. c \<noteq> CHR '':'') (rev v @ CHR '':'' # rev t)" by simp
  moreover have "takeWhile (\<lambda>c. c \<noteq> CHR '':'') (rev u @ CHR '':'' # rev s) = rev u"
    using assms(1) by (auto simp: takeWhile_tail)
  moreover have "takeWhile (\<lambda>c. c \<noteq> CHR '':'') (rev v @ CHR '':'' # rev t) = rev v"
    using assms(2) by (auto simp: takeWhile_tail)
  ultimately show ?thesis by simp
qed

lemma housePositionKey_house:
  "housePositionKey s h = housePositionKey t k \<Longrightarrow> h = k"
proof -
  assume "housePositionKey s h = housePositionKey t k"
  then have "s @ CHR '':'' # showNat h = t @ CHR '':'' # showNat k"
    by (simp add: housePositionKey_def)
  then have "showNat h = showNat k"
    by (rule colon_suffix_eq [OF showNat_no_colon showNat_no_colon])
  then show ?thesis by (rule showNat_inj)
qed


text \<open>
  A key of the house-position map determines the house it records: every write of the engine
  stores the house \<open>h\<close> under a key that ends in the decimal form of \<open>h\<close>.
\<close>

lemma recorded_update:
  "m (housePositionKey s h) = Some h
   \<Longrightarrow> (m(housePositionKey t k \<mapsto> k)) (housePositionKey s h) = Some h"
  by (auto dest: housePositionKey_house)

lemma recorded_trackPlanet:
  "m (housePositionKey s h) = Some h
   \<Longrightarrow> trackPlanet cusps m entry (housePositionKey s h) = Some h"
  by (cases entry) (auto simp: trackPlanet_def split: option.splits dest: housePositionKey_house)

lemma recorded_foldl_trackPlanet:
  "m (housePositionKey s h) = Some h
   \<Longrightarrow> foldl (trackPlanet cusps) m planets (housePositionKey s h) = Some h"
  by (induction planets arbitrary: m) (simp_all add: recorded_trackPlanet)

lemma recorded_trackPositions:
  "m (housePositionKey s h) = Some h
   \<Longrightarrow> trackPositions chart m (housePositionKey s h) = Some h"
  by (auto simp: trackPositions_def Let_def recorded_foldl_trackPlanet
      split: option.splits dest: housePositionKey_house)

lemma foldl_trackPlanet_records:
  "(planet, lon) \<in> set planets \<Longrightarrow> getHouseForLongitude lon cusps = Some h
   \<Longrightarrow> foldl (trackPlanet cusps) m planets (housePositionKey (idString planet) h) = Some h"
proof (induction planets arbitrary: m)
  case Nil
  then show ?case by simp
next
  case (Cons entry planets)
  show ?case
  proof (cases "entry = (planet, lon)")
    case True
    with Cons.prems(2)
    have "trackPlanet cusps m entry (housePositionKey (idString planet) h) = Some h"
      by (simp add: trackPlanet_def)
    then show ?thesis by (simp add: recorded_foldl_trackPlanet)
  next
    case False
    with Cons.prems(1) have "(planet, lon) \<in> set planets" by simp
    from Cons.IH [OF this Cons.prems(2)] show ?thesis by simp
  qed
qed

lemma trackPositions_records:
  assumes "houseCusps chart = Some cusps"
    and "planetLongitudeOf chart planet = Some lon"
    and "getHouseForLongitude lon cusps = Some h"
  shows "trackPositions chart m (housePositionKey (idString planet) h) = Some h"
proof -
  from assms(2) obtain planets where p: "planetLongitudes chart = Some planets"
    and l: "map_of planets planet = Some lon"
    by (auto simp: planetLongitudeOf_def split: option.splits)
  from l have "(planet, lon) \<in> set planets" by (rule map_of_SomeD)
  with assms(1,3) p show ?thesis
    by (simp add: trackPositions_def Let_def foldl_trackPlanet_records)
qed

lemma settled_not_triggered: "settled rule state \<Longrightarrow> \<not> ruleTriggered rule chart state"
  by (auto simp: settled_def ruleTriggered_def Let_def split: trigger.splits option.splits)

lemma applyRule_state:
  "appliedRuleIds (res_newState (applyRule rule frame locks chart state))
     = insert (rule_id rule) (appliedRuleIds state)"
  "previousHouseOf (res_newState (applyRule rule frame locks chart state)) k
     = trackPositions chart
         (case previousHousePositions state of None \<Rightarrow> Map.empty | Some m \<Rightarrow> m) k"
  by (simp_all add: applyRule_def Let_def previousHouseOf_def)

lemma settled_after_firing:
  assumes "edgeTriggered (rule_trigger rule)" and "ruleTriggered rule chart state"
  shows "settled rule (res_newState (applyRule rule frame locks chart state))"
proof (cases "rule_trigger rule")
  case (AscLeavesHouse house)
  then show ?thesis by (simp add: settled_def applyRule_state)
next
  case (PlanetCrossesHouse planet house)
  with assms(2) obtain lon cusps where "planetLongitudeOf chart planet = Some lon"
    and "houseCusps chart = Some cusps" and "getHouseForLongitude lon cusps = Some house"
    by (auto simp: ruleTriggered_def Let_def split: option.splits if_splits)
  then show ?thesis
    by (simp add: settled_def PlanetCrossesHouse applyRule_state trackPositions_records)
next
  case (PlanetCrossesAngle planet angle)
  with assms(1) show ?thesis by simp
next
  case Custom
  with assms(1) show ?thesis by simp
qed

lemma settled_applyRule:
  assumes "settled rule state"
  shows "settled rule (res_newState (applyRule other frame locks chart state))"
proof (cases "rule_trigger rule")
  case (AscLeavesHouse house)
  with assms show ?thesis by (simp add: settled_def applyRule_state)
next
  case (PlanetCrossesHouse planet house)
  with assms obtain m where "previousHousePositions state = Some m"
    and "m (housePositionKey (idString planet) house) = Some house"
    by (auto simp: settled_def previousHouseOf_def split: option.splits)
  then show ?thesis
    by (simp add: settled_def PlanetCrossesHouse applyRule_state recorded_trackPositions)
next
  case (PlanetCrossesAngle planet angle)
  with assms show ?thesis by (simp add: settled_def)
next
  case Custom
  with assms show ?thesis by (simp add: settled_def)
qed

lemma settled_evalRules:
  "settled rule state
   \<Longrightarrow> settled rule (snd (snd (evalRules rules locks chart (frame, extraLocks, state))))"
proof (induction rules arbitrary: frame extraLocks state)
  case Nil
  then show ?case by simp
next
  case (Cons r rules)
  show ?case
  proof (cases "ruleTriggered r chart state")
    case True
    from Cons.prems have "settled rule (res_newState (applyRule r frame locks chart state))"
      by (rule settled_applyRule)
    from Cons.IH [OF this] True show ?thesis by (simp add: Let_def)
  next
    case False
    with Cons.IH [OF Cons.prems] show ?thesis by simp
  qed
qed

lemma evalRules_append:
  "evalRules (xs @ ys) locks chart acc = evalRules ys locks chart (evalRules xs locks chart acc)"
proof (induction xs arbitrary: acc)
  case Nil
  then show ?case by simp
next
  case (Cons r xs)
  obtain frame extraLocks state where "acc = (frame, extraLocks, state)" by (cases acc) auto
  with Cons.IH show ?case by (simp add: Let_def)
qed

lemma settled_after_run:
  assumes i: "i < length rules"
    and e: "edgeTriggered (rule_trigger (rules ! i))"
    and f: "ruleTriggered (rules ! i) chart
              (snd (snd (evalRules (take i rules) locks chart (frame, [], state))))"
  shows "settled (rules ! i) (snd (snd (evalRules rules locks chart (frame, [], state))))"
proof -
  obtain fr ex st where mid: "evalRules (take i rules) locks chart (frame, [], state) = (fr, ex, st)"
    by (cases "evalRules (take i rules) locks chart (frame, [], state)") auto
  from i have split: "rules = take i rules @ rules ! i # drop (Suc i) rules"
    by (simp add: id_take_nth_drop)
  from f mid have fired: "ruleTriggered (rules ! i) chart st" by simp
  with e have s: "settled (rules ! i) (res_newState (applyRule (rules ! i) fr locks chart st))"
    by (rule settled_after_firing)
  have "evalRules rules locks chart (frame, [], state)
      = evalRules (rules ! i # drop (Suc i) rules) locks chart (fr, ex, st)"
    by (subst split) (simp only: evalRules_append mid)
  also have "\<dots> = evalRules (drop (Suc i) rules) locks chart
      (res_frame (applyRule (rules ! i) fr locks chart st),
       ex @ res_extraLocks (applyRule (rules ! i) fr locks chart st),
       res_newState (applyRule (rules ! i) fr locks chart st))"
    using fired by (simp add: Let_def)
  finally show ?thesis using settled_evalRules [OF s] by simp
qed

lemma firesAt_state:
  "firesAt program chart previousState i =
     ruleTriggered (rulesOf program ! i) chart
       (snd (snd (evalRules (take i (rulesOf program)) (locksOf program) chart
          (baseFrame program, [], initialState previousState))))"
  by (simp add: firesAt_def split: prod.split)

text \<open>
  C2.  If the rule at index \<open>i\<close> of the program is edge-triggered (\<open>ascLeavesHouse\<close> or
  \<open>planetCrossesHouse\<close>) and fires in an evaluation of the program, then in a second evaluation
  with the same snapshot and with the state returned by the first one as the previous state,
  that rule does not fire.
\<close>

theorem edge_rule_not_refired:
  assumes "i < length (rulesOf program)"
    and "edgeTriggered (rule_trigger (rulesOf program ! i))"
    and "firesAt program chart previousState i"
  shows "\<not> firesAt program chart
             (Some (out_state (evalOrientationProgram program chart previousState))) i"
proof -
  let ?rules = "rulesOf program" and ?locks = "locksOf program"
  let ?run = "evalRules ?rules ?locks chart (baseFrame program, [], initialState previousState)"
  from assms(3)
  have f: "ruleTriggered (?rules ! i) chart
      (snd (snd (evalRules (take i ?rules) ?locks chart
         (baseFrame program, [], initialState previousState))))"
    by (simp only: firesAt_state)
  have s1: "out_state (evalOrientationProgram program chart previousState) = snd (snd ?run)"
    by (simp add: evalOrientationProgram_def Let_def split: prod.splits)
  from settled_after_run [OF assms(1,2) f]
  have "settled (?rules ! i) (out_state (evalOrientationProgram program chart previousState))"
    by (simp only: s1)
  then have "settled (?rules ! i)
      (snd (snd (evalRules (take i ?rules) ?locks chart
         (baseFrame program, [],
          out_state (evalOrientationProgram program chart previousState)))))"
    by (rule settled_evalRules)
  then have "\<not> ruleTriggered (?rules ! i) chart
      (snd (snd (evalRules (take i ?rules) ?locks chart
         (baseFrame program, [],
          out_state (evalOrientationProgram program chart previousState)))))"
    by (rule settled_not_triggered)
  then show ?thesis
    by (simp add: firesAt_state initialState_def)
qed


lemma evenCusps_105: "getHouseForLongitude 105 evenCusps = Some 4"
proof -
  have n: "normalizeAngle 105 = 105" by (simp add: normalizeAngle_def normalizeDeg_def)
  have ne: "evenCusps \<noteq> []" by (simp add: evenCusps_def)
  have a: "houseLoop 105 evenCusps 0 = Some 4"
    by (simp add: houseLoop.simps evenCusps_def)
  show ?thesis by (simp add: getHouseForLongitude_def ne sortedHouses_evenCusps n a)
qed

lemma edgeProgram_first: "firesAt edgeProgram bothChart (Some leftState) 0"
  by (simp add: firesAt_def edgeProgram_def rulesOf_def initialState_def ruleTriggered_def
      crossRule_def bothChart_def planetLongitudeOf_def evenCusps_75 previousHouseOf_def
      leftState_def housePositionKey_def showNat.simps digitChar_def)

lemma edgeProgram_second: "firesAt edgeProgram bothChart (Some leftState) (Suc 0)"
  by (simp add: firesAt_def edgeProgram_def rulesOf_def locksOf_def initialState_def
      ruleTriggered_def applyRule_def trackPositions_def trackPlanet_def Let_def
      crossRule_def ascRule_def bothChart_def planetLongitudeOf_def angleLongitudeOf_def
      evenCusps_75 evenCusps_105 previousHouseOf_def
      leftState_def housePositionKey_def showNat.simps digitChar_def)

text \<open>
  A program of two edge-triggered rules, Mars entering house 3 and ASC leaving house 3, on a
  snapshot with Mars in house 3 and ASC in house 4, from a state that records ASC in house 3:
  both rules fire in the first evaluation and neither fires in the second.
\<close>

theorem edge_rule_not_refired_witness:
  "edgeTriggered (rule_trigger (rulesOf edgeProgram ! 0))
   \<and> firesAt edgeProgram bothChart (Some leftState) 0
   \<and> \<not> firesAt edgeProgram bothChart
         (Some (out_state (evalOrientationProgram edgeProgram bothChart (Some leftState)))) 0
   \<and> edgeTriggered (rule_trigger (rulesOf edgeProgram ! Suc 0))
   \<and> firesAt edgeProgram bothChart (Some leftState) (Suc 0)
   \<and> \<not> firesAt edgeProgram bothChart
         (Some (out_state (evalOrientationProgram edgeProgram bothChart (Some leftState)))) (Suc 0)"
proof -
  have l: "0 < length (rulesOf edgeProgram)" "Suc 0 < length (rulesOf edgeProgram)"
    by (simp_all add: rulesOf_def edgeProgram_def)
  have e0: "edgeTriggered (rule_trigger (rulesOf edgeProgram ! 0))"
    by (simp add: rulesOf_def edgeProgram_def crossRule_def)
  have e1: "edgeTriggered (rule_trigger (rulesOf edgeProgram ! Suc 0))"
    by (simp add: rulesOf_def edgeProgram_def ascRule_def)
  note r0 = edge_rule_not_refired [OF l(1) e0 edgeProgram_first]
  note r1 = edge_rule_not_refired [OF l(2) e1 edgeProgram_second]
  from e0 e1 edgeProgram_first edgeProgram_second r0 r1 show ?thesis by blast
qed

end
